theory Spec2Isabelle
  imports Complex_Main "HOL-Library.Word" "HOL-Library.Sublist"
begin

section \<open>The persistent store of \<^verbatim>\<open>app/database.py\<close>\<close>

text \<open>
  The program keeps its data in one SQLite file with two tables, \<^verbatim>\<open>shared_state\<close> and
  \<^verbatim>\<open>update_logs\<close>. A table is the list of its rows in insertion order; a table that
  has not been created yet is \<open>None\<close>, and a statement that names it raises
  \<^verbatim>\<open>sqlite3.OperationalError\<close>.

  An \<^verbatim>\<open>INTEGER\<close> column holds a signed 64-bit value. The \<^verbatim>\<open>sqlite3\<close> module
  refuses to bind a Python integer outside that range and raises \<^verbatim>\<open>OverflowError\<close>;
  a value read back is the signed reading of the stored word. The \<^verbatim>\<open>id\<close> columns are
  assigned by SQLite itself (\<^verbatim>\<open>AUTOINCREMENT\<close>) and are kept as unbounded integers: the
  program adds one row per call, so the 64-bit bound of a row id is out of reach.

  \<^verbatim>\<open>CURRENT_TIMESTAMP\<close> is the text \<^verbatim>\<open>YYYY-MM-DD HH:MM:SS\<close>, whose order as text is the
  order of the clock readings; a timestamp is modelled as the reading in seconds, and every
  statement that uses \<^verbatim>\<open>CURRENT_TIMESTAMP\<close> receives the reading as a parameter.
\<close>

type_synonym timestamp = nat

type_synonym sql_integer = "64 word"

datatype error = OperationalError | OverflowError | ZeroDivisionError | ValueError | SimulatedFailure

record state_row =
  sr_id :: int
  sr_counter :: sql_integer
  sr_message :: string
  sr_updated_at :: timestamp

record log_row =
  lr_id :: int
  lr_timestamp :: timestamp
  lr_old_counter :: sql_integer
  lr_new_counter :: sql_integer
  lr_old_message :: string
  lr_new_message :: string
  lr_update_type :: string

datatype journal = DELETE | WAL

text \<open>
  \<open>seq_shared_state\<close> and \<open>seq_update_logs\<close> are the two entries of SQLite's
  \<^verbatim>\<open>sqlite_sequence\<close> table, the largest row id that \<^verbatim>\<open>AUTOINCREMENT\<close> has handed out.
\<close>

record database =
  journal_mode :: journal
  shared_state :: "state_row list option"
  update_logs :: "log_row list option"
  seq_shared_state :: int
  seq_update_logs :: int

definition empty_database :: database where
  "empty_database =
     \<lparr>journal_mode = DELETE, shared_state = None, update_logs = None,
      seq_shared_state = 0, seq_update_logs = 0\<rparr>"

subsection \<open>Binding and reading integers\<close>

definition to_sql_integer :: "int \<Rightarrow> error + sql_integer" where
  "to_sql_integer n =
     (if - (2 ^ 63) \<le> n \<and> n < 2 ^ 63 then Inr (word_of_int n) else Inl OverflowError)"

definition from_sql_integer :: "sql_integer \<Rightarrow> int" where
  "from_sql_integer w = sint w"

subsection \<open>Connections and transactions\<close>

text \<open>
  A connection sees its own uncommitted changes (\<open>working\<close>); everybody else sees the
  last committed store (\<open>committed\<close>). \<^verbatim>\<open>conn.commit()\<close> publishes the working copy.
  Closing a connection, or dropping it when an exception leaves the function, rolls back
  whatever was not committed, so the store that remains is \<open>committed\<close>.
\<close>

record connection =
  committed :: database
  working :: database

definition get_connection :: "database \<Rightarrow> connection" where
  "get_connection db = \<lparr>committed = db, working = db\<rparr>"

definition commit :: "connection \<Rightarrow> connection" where
  "commit conn = conn\<lparr>committed := working conn\<rparr>"

definition close :: "connection \<Rightarrow> database" where
  "close conn = committed conn"

subsection \<open>The SQL statements\<close>

text \<open>\<^verbatim>\<open>ORDER BY id DESC LIMIT 1\<close>: the row with the greatest id, if there is a row.\<close>

fun latest :: "state_row list \<Rightarrow> state_row option" where
  "latest [] = None"
| "latest (r # rs) =
     (case latest rs of
        None \<Rightarrow> Some r
      | Some m \<Rightarrow> Some (if sr_id r < sr_id m then m else r))"

text \<open>\<^verbatim>\<open>SELECT * FROM shared_state ORDER BY id DESC LIMIT 1\<close>, then \<^verbatim>\<open>fetchone()\<close>.\<close>

definition select_latest_state :: "database \<Rightarrow> error + state_row option" where
  "select_latest_state db =
     (case shared_state db of
        None \<Rightarrow> Inl OperationalError
      | Some rows \<Rightarrow> Inr (latest rows))"

text \<open>
  \<^verbatim>\<open>UPDATE shared_state SET counter = ?, message = ?, updated_at = CURRENT_TIMESTAMP
  WHERE id = (SELECT id FROM shared_state ORDER BY id DESC LIMIT 1)\<close>.
  On an empty table the subquery is \<^verbatim>\<open>NULL\<close> and no row is touched.
\<close>

definition update_latest_state :: "timestamp \<Rightarrow> int \<Rightarrow> string \<Rightarrow> database \<Rightarrow> error + database" where
  "update_latest_state now new_counter new_message db =
     (case shared_state db of
        None \<Rightarrow> Inl OperationalError
      | Some rows \<Rightarrow>
          (case to_sql_integer new_counter of
             Inl e \<Rightarrow> Inl e
           | Inr c \<Rightarrow>
               Inr (db\<lparr>shared_state := Some (map
                 (\<lambda>r. if Some (sr_id r) = map_option sr_id (latest rows)
                      then r\<lparr>sr_counter := c, sr_message := new_message, sr_updated_at := now\<rparr>
                      else r) rows)\<rparr>)))"

text \<open>
  The row id that \<^verbatim>\<open>AUTOINCREMENT\<close> gives the next row: one more than the largest id
  ever used in the table.
\<close>

definition next_rowid :: "int \<Rightarrow> int list \<Rightarrow> int" where
  "next_rowid seq ids = fold max ids seq + 1"

text \<open>
  \<^verbatim>\<open>INSERT INTO update_logs (old_counter, new_counter, old_message, new_message,
  update_type) VALUES (?, ?, ?, ?, ?)\<close>; \<^verbatim>\<open>id\<close> and \<^verbatim>\<open>timestamp\<close> take their defaults.
\<close>

definition insert_update_log ::
  "timestamp \<Rightarrow> int \<Rightarrow> int \<Rightarrow> string \<Rightarrow> string \<Rightarrow> string \<Rightarrow> database \<Rightarrow> error + database" where
  "insert_update_log now old_c new_c old_m new_m utype db =
     (case update_logs db of
        None \<Rightarrow> Inl OperationalError
      | Some ls \<Rightarrow>
          (case to_sql_integer old_c of
             Inl e \<Rightarrow> Inl e
           | Inr oc \<Rightarrow>
               (case to_sql_integer new_c of
                  Inl e \<Rightarrow> Inl e
                | Inr nc \<Rightarrow>
                    (let i = next_rowid (seq_update_logs db) (map lr_id ls)
                     in Inr (db\<lparr>update_logs := Some (ls @
                          [\<lparr>lr_id = i, lr_timestamp = now,
                            lr_old_counter = oc, lr_new_counter = nc,
                            lr_old_message = old_m, lr_new_message = new_m,
                            lr_update_type = utype\<rparr>]),
                          seq_update_logs := i\<rparr>)))))"

text \<open>\<^verbatim>\<open>INSERT INTO shared_state (counter, message) VALUES (0, '')\<close>.\<close>

definition insert_initial_state :: "timestamp \<Rightarrow> state_row list \<Rightarrow> database \<Rightarrow> database" where
  "insert_initial_state now rows db =
     (let i = next_rowid (seq_shared_state db) (map sr_id rows)
      in db\<lparr>shared_state := Some (rows @
           [\<lparr>sr_id = i, sr_counter = 0, sr_message = '''', sr_updated_at = now\<rparr>]),
           seq_shared_state := i\<rparr>)"

text \<open>\<^verbatim>\<open>SELECT COUNT(*) FROM update_logs\<close>.\<close>

definition count_logs :: "database \<Rightarrow> error + int" where
  "count_logs db =
     (case update_logs db of
        None \<Rightarrow> Inl OperationalError
      | Some ls \<Rightarrow> Inr (int (length ls)))"

text \<open>
  \<^verbatim>\<open>ORDER BY timestamp DESC\<close>. SQLite leaves the order of rows with equal timestamps
  open; the model keeps them in table order (a stable sort).
\<close>

definition order_by_timestamp_desc :: "log_row list \<Rightarrow> log_row list" where
  "order_by_timestamp_desc ls = sort_key (\<lambda>r. - int (lr_timestamp r)) ls"

text \<open>
  \<^verbatim>\<open>LIMIT ? OFFSET ?\<close> as SQLite reads it: a negative offset skips nothing, a negative
  limit means no limit.
\<close>

definition limit_offset :: "int \<Rightarrow> int \<Rightarrow> 'a list \<Rightarrow> 'a list" where
  "limit_offset lmt ofs xs =
     (let ys = drop (nat ofs) xs in if lmt < 0 then ys else take (nat lmt) ys)"

text \<open>\<^verbatim>\<open>SELECT * FROM update_logs ORDER BY timestamp DESC LIMIT ? OFFSET ?\<close>, then \<^verbatim>\<open>fetchall()\<close>.\<close>

definition select_logs_page :: "int \<Rightarrow> int \<Rightarrow> database \<Rightarrow> error + log_row list" where
  "select_logs_page lmt ofs db =
     (case update_logs db of
        None \<Rightarrow> Inl OperationalError
      | Some ls \<Rightarrow>
          (case to_sql_integer lmt of
             Inl e \<Rightarrow> Inl e
           | Inr _ \<Rightarrow>
               (case to_sql_integer ofs of
                  Inl e \<Rightarrow> Inl e
                | Inr _ \<Rightarrow> Inr (limit_offset lmt ofs (order_by_timestamp_desc ls)))))"

section \<open>The operations\<close>

subsection \<open>\<^verbatim>\<open>init_db\<close>\<close>

definition create_tables :: "database \<Rightarrow> database" where
  "create_tables db =
     db\<lparr>shared_state := (case shared_state db of None \<Rightarrow> Some [] | Some rows \<Rightarrow> Some rows),
        update_logs := (case update_logs db of None \<Rightarrow> Some [] | Some ls \<Rightarrow> Some ls)\<rparr>"

text \<open>
  After \<^verbatim>\<open>CREATE TABLE IF NOT EXISTS\<close> the table exists, and \<^verbatim>\<open>SELECT COUNT( * )\<close> is 0
  exactly when it has no row.
\<close>

definition init_db :: "timestamp \<Rightarrow> database \<Rightarrow> database" where
  "init_db now db =
     (let conn = get_connection db;
          conn = conn\<lparr>working := (working conn)\<lparr>journal_mode := WAL\<rparr>\<rparr>;
          conn = conn\<lparr>working := create_tables (working conn)\<rparr>;
          conn = (case shared_state (working conn) of
                    Some [] \<Rightarrow> conn\<lparr>working := insert_initial_state now [] (working conn)\<rparr>
                  | _ \<Rightarrow> conn)
      in close (commit conn))"

subsection \<open>\<^verbatim>\<open>get_current_state\<close>\<close>

record state_dict =
  counter :: int
  message :: string

definition get_current_state :: "database \<Rightarrow> database \<times> (error + state_dict)" where
  "get_current_state db =
     (let conn = get_connection db in
      case select_latest_state (working conn) of
        Inl e \<Rightarrow> (close conn, Inl e)
      | Inr row \<Rightarrow>
          (close conn,
           Inr (case row of
                  Some r \<Rightarrow> \<lparr>counter = from_sql_integer (sr_counter r), message = sr_message r\<rparr>
                | None \<Rightarrow> \<lparr>counter = 0, message = ''''\<rparr>)))"

subsection \<open>\<^verbatim>\<open>UpdateRequest\<close>\<close>

text \<open>
  The request model of \<^verbatim>\<open>app/schemas.py\<close> with its model validator, which the route runs
  before it calls \<^verbatim>\<open>update_state\<close>.
\<close>

record UpdateRequest =
  req_counter :: "int option"
  req_message :: "string option"

definition validate_at_least_one_field :: "UpdateRequest \<Rightarrow> error + UpdateRequest" where
  "validate_at_least_one_field self =
     (if req_counter self = None \<and> req_message self = None then Inl ValueError else Inr self)"

subsection \<open>\<^verbatim>\<open>update_state\<close>\<close>

text \<open>Python's \<^verbatim>\<open>sep.join(xs)\<close>.\<close>

fun join :: "string \<Rightarrow> string list \<Rightarrow> string" where
  "join sep [] = ''''"
| "join sep [x] = x"
| "join sep (x # y # ys) = x @ sep @ join sep (y # ys)"

record update_result =
  old_counter :: int
  new_counter :: int
  old_message :: string
  new_message :: string

text \<open>
  A simulated failure is an exception raised just before one of the four steps of
  \<^verbatim>\<open>update_state\<close>: the \<^verbatim>\<open>SELECT\<close>, the \<^verbatim>\<open>UPDATE\<close>, the \<^verbatim>\<open>INSERT\<close> or the commit.
  \<open>BeforeInsert\<close> is the failure between the state write and the log append.
\<close>

datatype fault_point = BeforeSelect | BeforeUpdate | BeforeInsert | BeforeCommit

text \<open>
  \<open>now_state\<close> and \<open>now_log\<close> are the clock readings of the \<^verbatim>\<open>UPDATE\<close> and of the
  \<^verbatim>\<open>INSERT\<close>. The function catches no exception: a failure leaves it with the
  connection uncommitted, and the connection is dropped.
\<close>

definition update_state ::
  "fault_point option \<Rightarrow> timestamp \<Rightarrow> timestamp \<Rightarrow> int option \<Rightarrow> string option \<Rightarrow> database
     \<Rightarrow> database \<times> (error + update_result)" where
  "update_state fault now_state now_log counter_arg message_arg db =
     (let conn = get_connection db in
      if fault = Some BeforeSelect then (close conn, Inl SimulatedFailure) else
      case select_latest_state (working conn) of
        Inl e \<Rightarrow> (close conn, Inl e)
      | Inr current \<Rightarrow>
         (let old_c = (case current of Some r \<Rightarrow> from_sql_integer (sr_counter r) | None \<Rightarrow> 0);
              old_m = (case current of Some r \<Rightarrow> sr_message r | None \<Rightarrow> '''');
              new_c = (case counter_arg of Some c \<Rightarrow> c | None \<Rightarrow> old_c);
              new_m = (case message_arg of Some m \<Rightarrow> m | None \<Rightarrow> old_m)
          in
          if fault = Some BeforeUpdate then (close conn, Inl SimulatedFailure) else
          case update_latest_state now_state new_c new_m (working conn) of
            Inl e \<Rightarrow> (close conn, Inl e)
          | Inr w1 \<Rightarrow>
             (let conn1 = conn\<lparr>working := w1\<rparr>;
                  update_type = [];
                  update_type = (if counter_arg \<noteq> None then update_type @ [''counter'']
                                 else update_type);
                  update_type = (if message_arg \<noteq> None then update_type @ [''message'']
                                 else update_type)
              in
              if fault = Some BeforeInsert then (close conn1, Inl SimulatedFailure) else
              case insert_update_log now_log old_c new_c old_m new_m
                     (join '', '' update_type) (working conn1) of
                Inl e \<Rightarrow> (close conn1, Inl e)
              | Inr w2 \<Rightarrow>
                 (let conn2 = conn1\<lparr>working := w2\<rparr> in
                  if fault = Some BeforeCommit then (close conn2, Inl SimulatedFailure) else
                  (close (commit conn2),
                   Inr \<lparr>old_counter = old_c, new_counter = new_c,
                        old_message = old_m, new_message = new_m\<rparr>)))))"

text \<open>A sequence of calls, each on the store the previous one left; it stops at the first failure.\<close>

record update_call =
  call_fault :: "fault_point option"
  call_now_state :: timestamp
  call_now_log :: timestamp
  call_counter :: "int option"
  call_message :: "string option"

fun update_all :: "update_call list \<Rightarrow> database \<Rightarrow> error + database" where
  "update_all [] db = Inr db"
| "update_all (c # cs) db =
     (case update_state (call_fault c) (call_now_state c) (call_now_log c)
             (call_counter c) (call_message c) db of
        (db', Inl e) \<Rightarrow> Inl e
      | (db', Inr r) \<Rightarrow> update_all cs db')"

subsection \<open>\<^verbatim>\<open>get_logs\<close>\<close>

record LogEntry =
  le_id :: int
  le_timestamp :: timestamp
  le_old_counter :: int
  le_new_counter :: int
  le_old_message :: string
  le_new_message :: string
  le_update_type :: string

definition log_entry :: "log_row \<Rightarrow> LogEntry" where
  "log_entry row =
     \<lparr>le_id = lr_id row, le_timestamp = lr_timestamp row,
      le_old_counter = from_sql_integer (lr_old_counter row),
      le_new_counter = from_sql_integer (lr_new_counter row),
      le_old_message = lr_old_message row, le_new_message = lr_new_message row,
      le_update_type = lr_update_type row\<rparr>"

record logs_page =
  logs :: "LogEntry list"
  page :: int
  limit :: int
  total :: int
  total_pages :: int

definition get_logs :: "int \<Rightarrow> int \<Rightarrow> database \<Rightarrow> database \<times> (error + logs_page)" where
  "get_logs page_arg limit_arg db =
     (let conn = get_connection db in
      case count_logs (working conn) of
        Inl e \<Rightarrow> (close conn, Inl e)
      | Inr total_rows \<Rightarrow>
         (let offset = (page_arg - 1) * limit_arg in
          if total_rows > 0 \<and> limit_arg = 0 then (close conn, Inl ZeroDivisionError) else
          let pages = (if total_rows > 0 then (total_rows + limit_arg - 1) div limit_arg else 1) in
          case select_logs_page limit_arg offset (working conn) of
            Inl e \<Rightarrow> (close conn, Inl e)
          | Inr rows \<Rightarrow>
              (close conn,
               Inr \<lparr>logs = map log_entry rows, page = page_arg, limit = limit_arg,
                    total = total_rows, total_pages = pages\<rparr>)))"

section \<open>Names for the proofs\<close>

text \<open>
  What \<^verbatim>\<open>update_state\<close> reads from the state table, and the label it derives from its
  arguments, in closed form.
\<close>

definition old_counter_of :: "state_row list \<Rightarrow> int" where
  "old_counter_of rows = (case latest rows of Some r \<Rightarrow> from_sql_integer (sr_counter r) | None \<Rightarrow> 0)"

definition old_message_of :: "state_row list \<Rightarrow> string" where
  "old_message_of rows = (case latest rows of Some r \<Rightarrow> sr_message r | None \<Rightarrow> '''')"

definition update_type_of :: "int option \<Rightarrow> string option \<Rightarrow> string" where
  "update_type_of c m =
     (if c \<noteq> None then (if m \<noteq> None then ''counter, message'' else ''counter'')
      else (if m \<noteq> None then ''message'' else ''''))"

text \<open>Concrete stores and calls on which the theorems below are instantiated.\<close>

definition example_db :: database where
  "example_db =
     \<lparr>journal_mode = WAL,
      shared_state = Some [\<lparr>sr_id = 1, sr_counter = 5, sr_message = ''hi'', sr_updated_at = 100\<rparr>],
      update_logs = Some [], seq_shared_state = 1, seq_update_logs = 0\<rparr>"

definition example_db_after :: database where
  "example_db_after =
     \<lparr>journal_mode = WAL,
      shared_state = Some [\<lparr>sr_id = 1, sr_counter = 9, sr_message = ''hi'', sr_updated_at = 101\<rparr>],
      update_logs = Some [\<lparr>lr_id = 1, lr_timestamp = 102, lr_old_counter = 5, lr_new_counter = 9,
        lr_old_message = ''hi'', lr_new_message = ''hi'', lr_update_type = ''counter''\<rparr>],
      seq_shared_state = 1, seq_update_logs = 1\<rparr>"

definition example_logs_db :: database where
  "example_logs_db =
     \<lparr>journal_mode = WAL,
      shared_state = Some [\<lparr>sr_id = 1, sr_counter = 3, sr_message = ''c'', sr_updated_at = 30\<rparr>],
      update_logs = Some
       [\<lparr>lr_id = 1, lr_timestamp = 10, lr_old_counter = 0, lr_new_counter = 1,
         lr_old_message = '''', lr_new_message = '''', lr_update_type = ''counter''\<rparr>,
        \<lparr>lr_id = 2, lr_timestamp = 20, lr_old_counter = 1, lr_new_counter = 1,
         lr_old_message = '''', lr_new_message = ''c'', lr_update_type = ''message''\<rparr>,
        \<lparr>lr_id = 3, lr_timestamp = 30, lr_old_counter = 1, lr_new_counter = 3,
         lr_old_message = ''c'', lr_new_message = ''c'', lr_update_type = ''counter''\<rparr>],
      seq_shared_state = 1, seq_update_logs = 3\<rparr>"

definition example_calls :: "update_call list" where
  "example_calls =
     [\<lparr>call_fault = None, call_now_state = 101, call_now_log = 101,
       call_counter = Some 5, call_message = None\<rparr>,
      \<lparr>call_fault = None, call_now_state = 102, call_now_log = 102,
       call_counter = None, call_message = Some ''x''\<rparr>]"

definition example_calls_after :: database where
  "example_calls_after =
     \<lparr>journal_mode = WAL,
      shared_state = Some [\<lparr>sr_id = 1, sr_counter = 5, sr_message = ''x'', sr_updated_at = 102\<rparr>],
      update_logs = Some
       [\<lparr>lr_id = 1, lr_timestamp = 101, lr_old_counter = 5, lr_new_counter = 5,
         lr_old_message = ''hi'', lr_new_message = ''hi'', lr_update_type = ''counter''\<rparr>,
        \<lparr>lr_id = 2, lr_timestamp = 102, lr_old_counter = 5, lr_new_counter = 5,
         lr_old_message = ''hi'', lr_new_message = ''x'', lr_update_type = ''message''\<rparr>],
      seq_shared_state = 1, seq_update_logs = 2\<rparr>"

section \<open>Properties\<close>

lemma to_sql_integer_from [simp]: "to_sql_integer (from_sql_integer w) = Inr w"
  using sint_ge [of w] sint_lt [of w] by (simp add: to_sql_integer_def from_sql_integer_def)

lemma to_sql_integer_Inr: "to_sql_integer n = Inr w \<Longrightarrow> from_sql_integer w = n"
  by (auto simp: to_sql_integer_def from_sql_integer_def sint_sbintrunc' signed_take_bit_int_eq_self
      split: if_splits)

lemma to_sql_integer_zero [simp]: "to_sql_integer 0 = Inr 0"
  by (simp add: to_sql_integer_def)

lemma latest_None [simp]: "latest rows = None \<longleftrightarrow> rows = []"
  by (cases rows) (auto split: option.splits)

lemma latest_map:
  "(\<And>r. sr_id (g r) = sr_id r) \<Longrightarrow> latest (map g rows) = map_option g (latest rows)"
  by (induction rows) (auto split: option.splits)

lemma latest_in: "latest rows = Some m \<Longrightarrow> m \<in> set rows"
  by (induction rows arbitrary: m) (auto split: option.splits if_splits)

lemma latest_greatest: "latest rows = Some m \<Longrightarrow> r \<in> set rows \<Longrightarrow> sr_id r \<le> sr_id m"
  by (induction rows arbitrary: m) (fastforce split: option.splits if_splits)+

lemma close_get_connection [simp]: "close (get_connection db) = db"
  by (simp add: close_def get_connection_def)

lemma update_state_failure:
  "update_state fault ns nl c m db = (db', Inl e) \<Longrightarrow> db' = db"
  by (auto simp: update_state_def Let_def close_def commit_def get_connection_def
      split: sum.splits if_splits)

lemma to_sql_old_counter_of:
  "to_sql_integer (old_counter_of rows) = Inr (case latest rows of Some r \<Rightarrow> sr_counter r | None \<Rightarrow> 0)"
  by (simp add: old_counter_of_def split: option.splits)

lemma update_state_eval:
  assumes rows: "shared_state db = Some rows"
    and ls: "update_logs db = Some ls"
    and cw: "to_sql_integer (case c of Some v \<Rightarrow> v | None \<Rightarrow> old_counter_of rows) = Inr cw"
  shows "update_state None ns nl c m db =
    (db\<lparr>shared_state := Some (map
             (\<lambda>r. if Some (sr_id r) = map_option sr_id (latest rows)
                  then r\<lparr>sr_counter := cw,
                         sr_message := (case m of Some v \<Rightarrow> v | None \<Rightarrow> old_message_of rows),
                         sr_updated_at := ns\<rparr>
                  else r) rows),
           update_logs := Some (ls @
             [\<lparr>lr_id = next_rowid (seq_update_logs db) (map lr_id ls), lr_timestamp = nl,
               lr_old_counter = (case latest rows of Some r \<Rightarrow> sr_counter r | None \<Rightarrow> 0),
               lr_new_counter = cw,
               lr_old_message = old_message_of rows,
               lr_new_message = (case m of Some v \<Rightarrow> v | None \<Rightarrow> old_message_of rows),
               lr_update_type = update_type_of c m\<rparr>]),
           seq_update_logs := next_rowid (seq_update_logs db) (map lr_id ls)\<rparr>,
     Inr \<lparr>old_counter = old_counter_of rows,
          new_counter = (case c of Some v \<Rightarrow> v | None \<Rightarrow> old_counter_of rows),
          old_message = old_message_of rows,
          new_message = (case m of Some v \<Rightarrow> v | None \<Rightarrow> old_message_of rows)\<rparr>)"
proof -
  have oc: "to_sql_integer (old_counter_of rows) =
      Inr (case latest rows of Some r \<Rightarrow> sr_counter r | None \<Rightarrow> 0)"
    by (rule to_sql_old_counter_of)
  show ?thesis
    using rows ls cw oc
    by (cases c; cases m)
       (simp_all add: update_state_def Let_def select_latest_state_def get_connection_def
          update_latest_state_def insert_update_log_def close_def commit_def
          update_type_of_def old_counter_of_def old_message_of_def)
qed

lemma update_state_succeeds:
  assumes rows: "shared_state db = Some rows" and ls: "update_logs db = Some ls"
    and range: "\<And>v. c = Some v \<Longrightarrow> - (2 ^ 63) \<le> v \<and> v < 2 ^ 63"
  shows "\<exists>db' res. update_state None ns nl c m db = (db', Inr res)"
proof -
  have "\<exists>cw. to_sql_integer (case c of Some v \<Rightarrow> v | None \<Rightarrow> old_counter_of rows) = Inr cw"
  proof (cases c)
    case None
    then show ?thesis by (simp add: to_sql_old_counter_of)
  next
    case (Some v)
    with range [of v] show ?thesis by (simp add: to_sql_integer_def)
  qed
  then obtain cw where
    "to_sql_integer (case c of Some v \<Rightarrow> v | None \<Rightarrow> old_counter_of rows) = Inr cw" ..
  from update_state_eval [OF rows ls this] show ?thesis by blast
qed

lemma update_state_Inr_cases:
  assumes "update_state fault ns nl c m db = (db', Inr res)"
  obtains rows ls cw where
    "fault = None" "shared_state db = Some rows" "update_logs db = Some ls"
    "to_sql_integer (case c of Some v \<Rightarrow> v | None \<Rightarrow> old_counter_of rows) = Inr cw"
proof -
  have f: "fault = None"
  proof (cases fault)
    case (Some a)
    with assms show ?thesis
      by (cases a) (auto simp: update_state_def Let_def split: sum.splits if_splits)
  qed simp
  from assms obtain rows where rows: "shared_state db = Some rows"
    by (cases "shared_state db")
       (auto simp: update_state_def Let_def select_latest_state_def get_connection_def
          split: sum.splits if_splits)
  from assms obtain ls where ls: "update_logs db = Some ls"
    by (cases "update_logs db")
       (auto simp: update_state_def Let_def select_latest_state_def get_connection_def
          update_latest_state_def insert_update_log_def
          split: sum.splits if_splits option.splits)
  from assms f rows obtain cw where
    "to_sql_integer (case c of Some v \<Rightarrow> v | None \<Rightarrow> old_counter_of rows) = Inr cw"
    by (cases "to_sql_integer (case c of Some v \<Rightarrow> v | None \<Rightarrow> old_counter_of rows)")
       (auto simp: update_state_def Let_def select_latest_state_def get_connection_def
          update_latest_state_def old_counter_of_def split: sum.splits if_splits)
  with f rows ls show thesis by (rule that)
qed

lemma get_current_state_eval:
  "shared_state db = Some rows \<Longrightarrow>
   get_current_state db = (db, Inr \<lparr>counter = old_counter_of rows, message = old_message_of rows\<rparr>)"
  by (simp add: get_current_state_def select_latest_state_def get_connection_def close_def
      old_counter_of_def old_message_of_def Let_def split: option.splits)

lemma latest_update:
  assumes "latest rows = Some r"
  shows "latest (map (\<lambda>r. if Some (sr_id r) = map_option sr_id (latest rows)
            then r\<lparr>sr_counter := cw, sr_message := nm, sr_updated_at := ns\<rparr> else r) rows) =
         Some (r\<lparr>sr_counter := cw, sr_message := nm, sr_updated_at := ns\<rparr>)"
  by (subst latest_map) (simp_all add: assms)

text \<open>
  Claim C1. Let the state table hold at least one row, let \<open>cur\<close> be the state that
  \<^verbatim>\<open>get_current_state\<close> reads from it, and let at least one of \<open>counter\<close> and
  \<open>message\<close> be given. When \<^verbatim>\<open>update_state\<close> succeeds, the state read afterwards has
  each field equal to the requested one where it was given and to the field of \<open>cur\<close>
  otherwise; exactly one log row is appended, whose old and new columns are the two fields
  before and after (equal for a field that was not given) and whose \<open>update_type\<close> is
  \<^verbatim>\<open>counter\<close>, \<^verbatim>\<open>message\<close> or \<^verbatim>\<open>counter, message\<close>; and the returned dictionary is the same
  four values.
\<close>
theorem update_state_coalesce:
  assumes ok: "update_state fault ns nl c m db = (db', Inr res)"
    and stored: "shared_state db = Some rows" "rows \<noteq> []"
    and cur: "get_current_state db = (db, Inr cur)"
    and present: "c \<noteq> None \<or> m \<noteq> None"
  shows "snd (get_current_state db') =
           Inr \<lparr>counter = (case c of Some v \<Rightarrow> v | None \<Rightarrow> counter cur),
                message = (case m of Some v \<Rightarrow> v | None \<Rightarrow> message cur)\<rparr>
       \<and> (\<exists>ls row. update_logs db = Some ls \<and> update_logs db' = Some (ls @ [row])
             \<and> le_timestamp (log_entry row) = nl
             \<and> le_old_counter (log_entry row) = counter cur
             \<and> le_new_counter (log_entry row) = (case c of Some v \<Rightarrow> v | None \<Rightarrow> counter cur)
             \<and> le_old_message (log_entry row) = message cur
             \<and> le_new_message (log_entry row) = (case m of Some v \<Rightarrow> v | None \<Rightarrow> message cur)
             \<and> (c = None \<longrightarrow> le_new_counter (log_entry row) = le_old_counter (log_entry row))
             \<and> (m = None \<longrightarrow> le_new_message (log_entry row) = le_old_message (log_entry row))
             \<and> le_update_type (log_entry row) =
                  (if c \<noteq> None \<and> m \<noteq> None then ''counter, message''
                   else if c \<noteq> None then ''counter'' else ''message''))
       \<and> res = \<lparr>old_counter = counter cur,
                 new_counter = (case c of Some v \<Rightarrow> v | None \<Rightarrow> counter cur),
                 old_message = message cur,
                 new_message = (case m of Some v \<Rightarrow> v | None \<Rightarrow> message cur)\<rparr>"
proof -
  from ok obtain rows' ls cw where f: "fault = None"
    and rows': "shared_state db = Some rows'" and ls: "update_logs db = Some ls"
    and cw': "to_sql_integer (case c of Some v \<Rightarrow> v | None \<Rightarrow> old_counter_of rows') = Inr cw"
    by (rule update_state_Inr_cases)
  from rows' stored have eq: "rows' = rows" by simp
  note cw = cw' [unfolded eq]
  from stored obtain r where r: "latest rows = Some r"
    by (cases "latest rows") auto
  from cur stored have c: "cur = \<lparr>counter = old_counter_of rows, message = old_message_of rows\<rparr>"
    by (simp add: get_current_state_eval)
  have ncw: "from_sql_integer cw = (case c of Some v \<Rightarrow> v | None \<Rightarrow> old_counter_of rows)"
    using cw by (simp add: to_sql_integer_Inr)
  have ocw: "from_sql_integer (case latest rows of Some r \<Rightarrow> sr_counter r | None \<Rightarrow> 0) =
      old_counter_of rows"
    by (simp add: old_counter_of_def r)
  define nm where "nm = (case m of Some v \<Rightarrow> v | None \<Rightarrow> old_message_of rows)"
  define rows2 where "rows2 = map (\<lambda>r. if Some (sr_id r) = map_option sr_id (latest rows)
      then r\<lparr>sr_counter := cw, sr_message := nm, sr_updated_at := ns\<rparr> else r) rows"
  define row where "row =
      \<lparr>lr_id = next_rowid (seq_update_logs db) (map lr_id ls), lr_timestamp = nl,
       lr_old_counter = (case latest rows of Some r \<Rightarrow> sr_counter r | None \<Rightarrow> 0),
       lr_new_counter = cw, lr_old_message = old_message_of rows, lr_new_message = nm,
       lr_update_type = update_type_of c m\<rparr>"
  from ok f update_state_eval [OF stored(1) ls cw, of ns nl m]
  have db': "db' = db\<lparr>shared_state := Some rows2, update_logs := Some (ls @ [row]),
                 seq_update_logs := next_rowid (seq_update_logs db) (map lr_id ls)\<rparr>"
    and res: "res = \<lparr>old_counter = old_counter_of rows,
                 new_counter = (case c of Some v \<Rightarrow> v | None \<Rightarrow> old_counter_of rows),
                 old_message = old_message_of rows, new_message = nm\<rparr>"
    unfolding rows2_def row_def nm_def by simp_all
  have l2: "latest rows2 = Some (r\<lparr>sr_counter := cw, sr_message := nm, sr_updated_at := ns\<rparr>)"
    unfolding rows2_def by (rule latest_update [OF r])
  have st2: "shared_state db' = Some rows2" and lg2: "update_logs db' = Some (ls @ [row])"
    by (simp_all add: db')
  have 1: "snd (get_current_state db') =
           Inr \<lparr>counter = (case c of Some v \<Rightarrow> v | None \<Rightarrow> counter cur),
                message = (case m of Some v \<Rightarrow> v | None \<Rightarrow> message cur)\<rparr>"
    by (simp add: get_current_state_eval [OF st2] old_counter_of_def [of rows2]
          old_message_of_def [of rows2] l2 ncw c nm_def split: option.splits)
  have 2: "le_timestamp (log_entry row) = nl"
    "le_old_counter (log_entry row) = counter cur"
    "le_new_counter (log_entry row) = (case c of Some v \<Rightarrow> v | None \<Rightarrow> counter cur)"
    "le_old_message (log_entry row) = message cur"
    "le_new_message (log_entry row) = (case m of Some v \<Rightarrow> v | None \<Rightarrow> message cur)"
    by (simp_all add: log_entry_def row_def ocw ncw c nm_def split: option.splits)
  have 3: "le_update_type (log_entry row) =
                  (if c \<noteq> None \<and> m \<noteq> None then ''counter, message''
                   else if c \<noteq> None then ''counter'' else ''message'')"
    using present by (auto simp: log_entry_def row_def update_type_of_def)
  have 4: "c = None \<longrightarrow> le_new_counter (log_entry row) = le_old_counter (log_entry row)"
    "m = None \<longrightarrow> le_new_message (log_entry row) = le_old_message (log_entry row)"
    by (simp_all add: 2)
  have 5: "res = \<lparr>old_counter = counter cur,
                 new_counter = (case c of Some v \<Rightarrow> v | None \<Rightarrow> counter cur),
                 old_message = message cur,
                 new_message = (case m of Some v \<Rightarrow> v | None \<Rightarrow> message cur)\<rparr>"
    by (simp add: res c nm_def split: option.splits)
  from ls lg2 2 3 4 have "\<exists>ls row. update_logs db = Some ls \<and> update_logs db' = Some (ls @ [row])
             \<and> le_timestamp (log_entry row) = nl
             \<and> le_old_counter (log_entry row) = counter cur
             \<and> le_new_counter (log_entry row) = (case c of Some v \<Rightarrow> v | None \<Rightarrow> counter cur)
             \<and> le_old_message (log_entry row) = message cur
             \<and> le_new_message (log_entry row) = (case m of Some v \<Rightarrow> v | None \<Rightarrow> message cur)
             \<and> (c = None \<longrightarrow> le_new_counter (log_entry row) = le_old_counter (log_entry row))
             \<and> (m = None \<longrightarrow> le_new_message (log_entry row) = le_old_message (log_entry row))
             \<and> le_update_type (log_entry row) =
                  (if c \<noteq> None \<and> m \<noteq> None then ''counter, message''
                   else if c \<noteq> None then ''counter'' else ''message'')"
    by blast
  with 1 5 show ?thesis by blast
qed

lemma ceil_div:
  fixes t l :: int
  assumes "0 < l"
  shows "(t + l - 1) div l = \<lceil>real_of_int t / real_of_int l\<rceil>"
proof -
  define q where "q = (t + l - 1) div l"
  have eq: "q * l + (t + l - 1) mod l = t + l - 1"
    unfolding q_def by simp
  have "0 \<le> (t + l - 1) mod l" "(t + l - 1) mod l < l"
    using assms by simp_all
  with eq have "(q - 1) * l < t" "t \<le> q * l"
    by (simp_all add: algebra_simps)
  then have "real_of_int ((q - 1) * l) < real_of_int t" "real_of_int t \<le> real_of_int (q * l)"
    by linarith+
  with assms have "real_of_int q - 1 < real_of_int t / real_of_int l"
    "real_of_int t / real_of_int l \<le> real_of_int q"
    by (simp_all add: pos_less_divide_eq pos_divide_le_eq)
  then have "\<lceil>real_of_int t / real_of_int l\<rceil> = q"
    by (simp add: ceiling_eq_iff)
  then show ?thesis by (simp add: q_def)
qed

lemma order_by_timestamp_desc_sorted:
  "sorted_wrt (\<lambda>a b. lr_timestamp b \<le> lr_timestamp a) (order_by_timestamp_desc ls)"
proof -
  have "sorted (map (\<lambda>r. - int (lr_timestamp r)) (order_by_timestamp_desc ls))"
    unfolding order_by_timestamp_desc_def by (rule sorted_sort_key)
  then show ?thesis by (simp add: sorted_map)
qed

lemma length_order_by_timestamp_desc [simp]:
  "length (order_by_timestamp_desc ls) = length ls"
  by (simp add: order_by_timestamp_desc_def)

lemma limit_offset_sorted:
  "sorted_wrt P xs \<Longrightarrow> sorted_wrt P (limit_offset l off xs)"
  by (simp add: limit_offset_def Let_def sorted_wrt_take sorted_wrt_drop)

lemma get_logs_failure_or_same: "fst (get_logs p l db) = db"
  by (simp add: get_logs_def Let_def close_def get_connection_def split: sum.splits)

lemma get_logs_Inr_cases:
  assumes "get_logs p l db = (db', Inr pg)"
  obtains ls where "update_logs db = Some ls"
    "pg = \<lparr>logs = map log_entry (limit_offset l ((p - 1) * l) (order_by_timestamp_desc ls)),
           page = p, limit = l, total = int (length ls),
           total_pages = (if 0 < int (length ls) then (int (length ls) + l - 1) div l else 1)\<rparr>"
  using assms
  by (cases "update_logs db")
     (auto simp: get_logs_def Let_def count_logs_def select_logs_page_def get_connection_def
        split: sum.splits if_splits)

lemma get_logs_in_range:
  assumes ls: "update_logs db = Some ls"
    and p: "1 \<le> p" and l: "1 \<le> l" "l \<le> 100"
    and off: "(p - 1) * l < 2 ^ 63"
  shows "get_logs p l db =
    (db, Inr \<lparr>logs = map log_entry (take (nat l) (drop (nat ((p - 1) * l)) (order_by_timestamp_desc ls))),
              page = p, limit = l, total = int (length ls),
              total_pages = (if ls = [] then 1 else \<lceil>real (length ls) / real_of_int l\<rceil>)\<rparr>)"
proof -
  have "0 \<le> (p - 1) * l" using p l by simp
  with off have 1: "to_sql_integer ((p - 1) * l) = Inr (word_of_int ((p - 1) * l))"
    by (simp add: to_sql_integer_def)
  have 2: "to_sql_integer l = Inr (word_of_int l)"
    using l by (simp add: to_sql_integer_def)
  have 3: "(int (length ls) + l - 1) div l = \<lceil>real (length ls) / real_of_int l\<rceil>"
    using ceil_div [of l "int (length ls)"] l by simp
  show ?thesis
    using ls l 1 2 3
    by (simp add: get_logs_def Let_def count_logs_def select_logs_page_def get_connection_def
        close_def limit_offset_def)
qed

lemma get_logs_beyond_last_page:
  assumes ls: "update_logs db = Some ls"
    and p: "1 \<le> p" and l: "1 \<le> l" "l \<le> 100"
    and off: "(p - 1) * l < 2 ^ 63"
    and beyond: "int (length ls) \<le> (p - 1) * l"
  shows "get_logs p l db =
    (db, Inr \<lparr>logs = [], page = p, limit = l, total = int (length ls),
              total_pages = (if ls = [] then 1 else \<lceil>real (length ls) / real_of_int l\<rceil>)\<rparr>)"
  using beyond by (simp add: get_logs_in_range [OF ls p l off])

lemma get_logs_fifteen:
  assumes ls: "update_logs db = Some ls" and n: "length ls = 15"
  shows "(\<exists>pg. get_logs 1 10 db = (db, Inr pg) \<and> length (logs pg) = 10 \<and> total_pages pg = 2) \<and>
         (\<exists>pg. get_logs 2 10 db = (db, Inr pg) \<and> length (logs pg) = 5 \<and> total_pages pg = 2) \<and>
         (\<exists>pg. get_logs 3 10 db = (db, Inr pg) \<and> logs pg = [] \<and> total_pages pg = 2)"
proof -
  have c: "\<lceil>(15::real) / 10\<rceil> = 2" by (simp add: ceiling_eq_iff)
  have ne: "ls \<noteq> []" using n by auto
  show ?thesis
    using n ne c
    by (simp add: get_logs_in_range [OF ls])
qed

text \<open>
  Claim C6. In the entries that \<^verbatim>\<open>get_logs\<close> returns, an entry with a later timestamp comes
  before every entry with an earlier one: if the entry at position \<open>i\<close> is older than the
  entry at position \<open>j\<close>, then \<open>j < i\<close>.
\<close>
theorem get_logs_newest_first:
  assumes ok: "get_logs p l db = (db', Inr pg)"
    and i: "i < length (logs pg)" and j: "j < length (logs pg)"
    and older: "le_timestamp (logs pg ! i) < le_timestamp (logs pg ! j)"
  shows "j < i"
proof (rule ccontr)
  assume "\<not> j < i"
  with older have ij: "i < j" by (cases "i = j") auto
  from ok obtain ls where
    pg: "pg = \<lparr>logs = map log_entry (limit_offset l ((p - 1) * l) (order_by_timestamp_desc ls)),
           page = p, limit = l, total = int (length ls),
           total_pages = (if 0 < int (length ls) then (int (length ls) + l - 1) div l else 1)\<rparr>"
    by (rule get_logs_Inr_cases)
  let ?rows = "limit_offset l ((p - 1) * l) (order_by_timestamp_desc ls)"
  have "sorted_wrt (\<lambda>a b. lr_timestamp b \<le> lr_timestamp a) ?rows"
    by (rule limit_offset_sorted [OF order_by_timestamp_desc_sorted])
  moreover have "j < length ?rows" using j by (simp add: pg)
  ultimately have "lr_timestamp (?rows ! j) \<le> lr_timestamp (?rows ! i)"
    using ij by (simp add: sorted_wrt_iff_nth_less)
  moreover have "le_timestamp (logs pg ! i) = lr_timestamp (?rows ! i)"
    "le_timestamp (logs pg ! j) = lr_timestamp (?rows ! j)"
    using i j by (simp_all add: pg log_entry_def)
  ultimately show False using older by simp
qed

text \<open>
  Claim C7. When the state table exists, \<^verbatim>\<open>get_current_state\<close> does not fail. On a table
  without rows it returns counter 0 and the empty message; otherwise it returns the counter
  and the message of a row whose id is the greatest in the table.
\<close>
theorem get_current_state_latest:
  assumes "shared_state db = Some rows"
  shows "\<exists>st. get_current_state db = (db, Inr st) \<and>
           (rows = [] \<longrightarrow> st = \<lparr>counter = 0, message = ''''\<rparr>) \<and>
           (rows \<noteq> [] \<longrightarrow> (\<exists>r \<in> set rows. (\<forall>r' \<in> set rows. sr_id r' \<le> sr_id r) \<and>
              st = \<lparr>counter = from_sql_integer (sr_counter r), message = sr_message r\<rparr>))"
proof (cases "latest rows")
  case None
  then show ?thesis
    using assms by (simp add: get_current_state_eval old_counter_of_def old_message_of_def)
next
  case (Some r)
  then have "r \<in> set rows" "\<forall>r' \<in> set rows. sr_id r' \<le> sr_id r"
    by (auto intro: latest_in latest_greatest)
  moreover have "rows \<noteq> []" using Some by auto
  ultimately show ?thesis
    using assms Some
    by (auto simp: get_current_state_eval old_counter_of_def old_message_of_def)
qed

text \<open>
  Claim C10. \<^verbatim>\<open>get_current_state\<close> and \<^verbatim>\<open>get_logs\<close> leave the store exactly as it was,
  for every store and all arguments, whether they return or raise.
\<close>
theorem reads_leave_store_unchanged:
  "fst (get_current_state db) = db \<and> fst (get_logs p l db) = db"
  by (simp add: get_logs_failure_or_same get_current_state_def Let_def split: sum.splits)

lemma update_state_fault_fails:
  "\<exists>e. update_state (Some p) ns nl c m db = (db, Inl e)"
proof (cases "update_state (Some p) ns nl c m db")
  case (Pair db' r)
  show ?thesis
  proof (cases r)
    case (Inl e)
    with Pair update_state_failure [of "Some p" ns nl c m db db' e] show ?thesis by simp
  next
    case (Inr res)
    with Pair have "Some p = None" by (auto elim: update_state_Inr_cases)
    then show ?thesis by simp
  qed
qed

lemma update_state_appends:
  assumes "update_state fault ns nl c m db = (db', Inr res)"
  shows "\<exists>ls row. update_logs db = Some ls \<and> update_logs db' = Some (ls @ [row]) \<and>
           lr_update_type row = update_type_of c m \<and>
           from_sql_integer (lr_old_counter row) = old_counter res \<and>
           from_sql_integer (lr_new_counter row) = new_counter res \<and>
           lr_old_message row = old_message res \<and> lr_new_message row = new_message res"
proof -
  from assms obtain rows ls cw where f: "fault = None"
    and rows: "shared_state db = Some rows" and ls: "update_logs db = Some ls"
    and cw: "to_sql_integer (case c of Some v \<Rightarrow> v | None \<Rightarrow> old_counter_of rows) = Inr cw"
    by (rule update_state_Inr_cases)
  have "from_sql_integer (case latest rows of Some r \<Rightarrow> sr_counter r | None \<Rightarrow> 0) =
      old_counter_of rows"
    by (simp add: old_counter_of_def from_sql_integer_def split: option.splits)
  with assms f update_state_eval [OF rows ls cw, of ns nl m] ls to_sql_integer_Inr [OF cw]
  show ?thesis by auto
qed

lemma update_state_steps:
  assumes "update_state fault ns nl c m db = (db', Inr res)"
  shows "\<exists>w1. update_latest_state ns (new_counter res) (new_message res) db = Inr w1 \<and>
              insert_update_log nl (old_counter res) (new_counter res) (old_message res)
                (new_message res) (update_type_of c m) w1 = Inr db'"
proof -
  from assms obtain rows ls cw where f: "fault = None"
    and rows: "shared_state db = Some rows" and ls: "update_logs db = Some ls"
    and cw: "to_sql_integer (case c of Some v \<Rightarrow> v | None \<Rightarrow> old_counter_of rows) = Inr cw"
    by (rule update_state_Inr_cases)
  from assms f update_state_eval [OF rows ls cw, of ns nl m] rows ls cw
  show ?thesis
    by (auto simp: update_latest_state_def insert_update_log_def to_sql_old_counter_of Let_def)
qed

text \<open>
  Claim C2. \<^verbatim>\<open>update_state\<close> is atomic. A failure simulated at any of its steps makes the
  call fail; whenever the call fails, for whatever reason, the store afterwards is the store
  before the call; and when it succeeds the store afterwards is the one in which both the
  \<^verbatim>\<open>UPDATE\<close> of the state and the \<^verbatim>\<open>INSERT\<close> of the log row have been carried out.
\<close>
theorem update_state_atomic:
  "(fault \<noteq> None \<longrightarrow> (\<exists>e. update_state fault ns nl c m db = (db, Inl e)))
   \<and> (\<forall>db' e. update_state fault ns nl c m db = (db', Inl e) \<longrightarrow> db' = db)
   \<and> (\<forall>db' res. update_state fault ns nl c m db = (db', Inr res) \<longrightarrow>
        (\<exists>w1. update_latest_state ns (new_counter res) (new_message res) db = Inr w1 \<and>
              insert_update_log nl (old_counter res) (new_counter res) (old_message res)
                (new_message res) (join '', '' ((if c \<noteq> None then [''counter''] else []) @
                   (if m \<noteq> None then [''message''] else []))) w1 = Inr db'))"
proof -
  have ut: "join '', '' ((if c \<noteq> None then [''counter''] else []) @
                   (if m \<noteq> None then [''message''] else [])) = update_type_of c m"
    by (simp add: update_type_of_def)
  show ?thesis
    unfolding ut
    using update_state_fault_fails [of _ ns nl c m db]
    by (auto dest: update_state_failure update_state_steps)
qed

text \<open>
  Claim C9. The validator of \<^verbatim>\<open>UpdateRequest\<close> rejects a request with neither field.
  Called all the same with neither field given, \<^verbatim>\<open>update_state\<close> succeeds on a store with
  both tables; the state read afterwards is the state read before; the returned new values are
  the old ones; and one log row is appended, whose \<open>update_type\<close> is the empty string (none
  of the three documented labels) and whose new columns equal its old ones.
\<close>
theorem update_state_both_absent:
  assumes rows: "shared_state db = Some rows" and ls: "update_logs db = Some ls"
  shows "validate_at_least_one_field \<lparr>req_counter = None, req_message = None\<rparr> = Inl ValueError
       \<and> (\<exists>db' res row. update_state None ns nl None None db = (db', Inr res)
           \<and> snd (get_current_state db') = snd (get_current_state db)
           \<and> new_counter res = old_counter res \<and> new_message res = old_message res
           \<and> update_logs db' = Some (ls @ [row])
           \<and> le_update_type (log_entry row) = ''''
           \<and> le_update_type (log_entry row) \<notin> {''counter'', ''message'', ''counter, message''}
           \<and> le_new_counter (log_entry row) = le_old_counter (log_entry row)
           \<and> le_new_message (log_entry row) = le_old_message (log_entry row))"
proof -
  define cw where "cw = (case latest rows of Some r \<Rightarrow> sr_counter r | None \<Rightarrow> 0)"
  define rows2 where "rows2 = map (\<lambda>r. if Some (sr_id r) = map_option sr_id (latest rows)
      then r\<lparr>sr_counter := cw, sr_message := old_message_of rows, sr_updated_at := ns\<rparr> else r) rows"
  define row where "row =
      \<lparr>lr_id = next_rowid (seq_update_logs db) (map lr_id ls), lr_timestamp = nl,
       lr_old_counter = cw, lr_new_counter = cw,
       lr_old_message = old_message_of rows, lr_new_message = old_message_of rows,
       lr_update_type = ''''\<rparr>"
  define db2 where "db2 = db\<lparr>shared_state := Some rows2, update_logs := Some (ls @ [row]),
       seq_update_logs := next_rowid (seq_update_logs db) (map lr_id ls)\<rparr>"
  define res where "res = \<lparr>old_counter = old_counter_of rows, new_counter = old_counter_of rows,
       old_message = old_message_of rows, new_message = old_message_of rows\<rparr>"
  have "to_sql_integer (case None of Some v \<Rightarrow> v | None \<Rightarrow> old_counter_of rows) = Inr cw"
    by (simp add: to_sql_old_counter_of cw_def)
  from update_state_eval [OF rows ls this, of ns nl None]
  have ev: "update_state None ns nl None None db = (db2, Inr res)"
    unfolding db2_def res_def row_def rows2_def cw_def by (simp add: update_type_of_def)
  have l2: "map_option (\<lambda>r. (sr_counter r, sr_message r)) (latest rows2) =
            map_option (\<lambda>r. (sr_counter r, sr_message r)) (latest rows)"
  proof (cases "latest rows")
    case None
    then show ?thesis by (simp add: rows2_def)
  next
    case (Some r)
    from latest_update [OF Some, where cw = cw and nm = "old_message_of rows" and ns = ns]
    show ?thesis by (simp add: rows2_def Some old_message_of_def cw_def)
  qed
  have same: "old_counter_of rows2 = old_counter_of rows" "old_message_of rows2 = old_message_of rows"
    using l2 by (auto simp: old_counter_of_def old_message_of_def split: option.splits)
  have st2: "shared_state db2 = Some rows2" by (simp add: db2_def)
  have 1: "snd (get_current_state db2) = snd (get_current_state db)"
    by (simp add: get_current_state_eval [OF rows] get_current_state_eval [OF st2] same)
  have 2: "update_logs db2 = Some (ls @ [row])" by (simp add: db2_def)
  have 3: "new_counter res = old_counter res" "new_message res = old_message res"
    by (simp_all add: res_def)
  have 4: "le_update_type (log_entry row) = ''''"
    "le_update_type (log_entry row) \<notin> {''counter'', ''message'', ''counter, message''}"
    "le_new_counter (log_entry row) = le_old_counter (log_entry row)"
    "le_new_message (log_entry row) = le_old_message (log_entry row)"
    by (simp_all add: log_entry_def row_def)
  have 5: "validate_at_least_one_field \<lparr>req_counter = None, req_message = None\<rparr> = Inl ValueError"
    by (simp add: validate_at_least_one_field_def)
  from ev 1 2 3 4 5 show ?thesis by blast
qed

lemma update_all_appends:
  "update_all calls db = Inr db' \<Longrightarrow> update_logs db = Some ls \<Longrightarrow>
   \<exists>new. update_logs db' = Some (ls @ new) \<and> length new = length calls"
proof (induction calls arbitrary: db ls)
  case Nil
  then show ?case by simp
next
  case (Cons c cs)
  from Cons.prems(1) obtain db1 r where
    step: "update_state (call_fault c) (call_now_state c) (call_now_log c)
             (call_counter c) (call_message c) db = (db1, Inr r)"
    and rest: "update_all cs db1 = Inr db'"
    by (auto split: prod.splits sum.splits)
  from update_state_appends [OF step] Cons.prems(2) obtain row where
    "update_logs db1 = Some (ls @ [row])" by auto
  from Cons.IH [OF rest this] show ?case by auto
qed

lemma init_db_logs: "update_logs db = Some ls \<Longrightarrow> update_logs (init_db now db) = Some ls"
  by (simp add: init_db_def Let_def close_def commit_def get_connection_def create_tables_def
      insert_initial_state_def split: option.splits list.splits)

text \<open>
  Claim C3. On a store with a log table, a sequence of \<open>N\<close> successful \<^verbatim>\<open>update_state\<close>
  calls, whatever their arguments, leaves the old log rows in place and appends \<open>N\<close> rows
  behind them, so the count of log rows grows by exactly \<open>N\<close>. A single call appends one row
  when it succeeds and none when it fails, and \<^verbatim>\<open>init_db\<close>, \<^verbatim>\<open>get_current_state\<close> and
  \<^verbatim>\<open>get_logs\<close> leave the log table as it is.
\<close>
theorem log_monotone:
  assumes ls: "update_logs db = Some ls"
  shows "(\<forall>db'. update_all calls db = Inr db' \<longrightarrow>
            (\<exists>new. update_logs db' = Some (ls @ new) \<and> length new = length calls
               \<and> count_logs db' = Inr (int (length ls) + int (length calls))))
       \<and> (\<exists>rest. update_logs (fst (update_state fault ns nl c m db)) = Some (ls @ rest)
             \<and> (length rest = (if isl (snd (update_state fault ns nl c m db)) then 0 else 1)))
       \<and> update_logs (init_db now db) = Some ls
       \<and> update_logs (fst (get_current_state db)) = Some ls
       \<and> update_logs (fst (get_logs p l db)) = Some ls"
proof -
  have 1: "\<forall>db'. update_all calls db = Inr db' \<longrightarrow>
            (\<exists>new. update_logs db' = Some (ls @ new) \<and> length new = length calls
               \<and> count_logs db' = Inr (int (length ls) + int (length calls)))"
    using update_all_appends [OF _ ls, of calls] by (fastforce simp: count_logs_def)
  have 2: "\<exists>rest. update_logs (fst (update_state fault ns nl c m db)) = Some (ls @ rest)
             \<and> (length rest = (if isl (snd (update_state fault ns nl c m db)) then 0 else 1))"
  proof (cases "update_state fault ns nl c m db")
    case (Pair db' r)
    show ?thesis
    proof (cases r)
      case (Inl e)
      with Pair update_state_failure [of fault ns nl c m db db' e] ls show ?thesis by simp
    next
      case (Inr res)
      with Pair update_state_appends [of fault ns nl c m db db' res] ls show ?thesis by auto
    qed
  qed
  have 3: "update_logs (fst (get_current_state db)) = Some ls"
    "update_logs (fst (get_logs p l db)) = Some ls"
    using ls by (simp_all add: get_logs_failure_or_same get_current_state_def Let_def split: sum.splits)
  from 1 2 3 init_db_logs [OF ls] show ?thesis by blast
qed

lemma init_db_empty:
  "init_db now empty_database =
     \<lparr>journal_mode = WAL,
      shared_state = Some [\<lparr>sr_id = 1, sr_counter = 0, sr_message = '''', sr_updated_at = now\<rparr>],
      update_logs = Some [], seq_shared_state = 1, seq_update_logs = 0\<rparr>"
  by (simp add: init_db_def empty_database_def Let_def close_def commit_def get_connection_def
      create_tables_def insert_initial_state_def next_rowid_def)

lemma init_db_initialized:
  assumes "journal_mode db = WAL" "shared_state db = Some rows" "rows \<noteq> []"
    "update_logs db = Some ls"
  shows "init_db now db = db"
  using assms
  by (cases rows)
     (simp_all add: init_db_def Let_def close_def commit_def get_connection_def create_tables_def)

lemma fold_init_db_initialized:
  assumes "journal_mode db = WAL" "shared_state db = Some rows" "rows \<noteq> []"
    "update_logs db = Some ls"
  shows "fold init_db nows db = db"
  using assms by (induction nows) (simp_all add: init_db_initialized)

text \<open>
  Claim C8. On the empty store \<^verbatim>\<open>init_db\<close> creates both tables, the state table with the one
  row counter 0 and empty message, the log table without rows. Any number of further calls
  leaves that store as it is, as it leaves every initialised store; and on any store whose
  tables exist and whose state table has a row, a call changes neither table.
\<close>
theorem init_db_idempotent:
  "init_db now empty_database =
     \<lparr>journal_mode = WAL,
      shared_state = Some [\<lparr>sr_id = 1, sr_counter = 0, sr_message = '''', sr_updated_at = now\<rparr>],
      update_logs = Some [], seq_shared_state = 1, seq_update_logs = 0\<rparr>
   \<and> fold init_db nows (init_db now empty_database) = init_db now empty_database
   \<and> (journal_mode db = WAL \<and> shared_state db = Some rows \<and> rows \<noteq> [] \<and> update_logs db = Some ls
        \<longrightarrow> fold init_db nows db = db)
   \<and> (shared_state db = Some rows \<and> rows \<noteq> [] \<and> update_logs db = Some ls
        \<longrightarrow> shared_state (init_db now db) = Some rows \<and> update_logs (init_db now db) = Some ls)"
proof -
  have 1: "fold init_db nows (init_db now empty_database) = init_db now empty_database"
    by (rule fold_init_db_initialized
          [where rows = "[\<lparr>sr_id = 1, sr_counter = 0, sr_message = '''', sr_updated_at = now\<rparr>]"
             and ls = "[]"])
       (simp_all add: init_db_empty)
  have 2: "shared_state db = Some rows \<and> rows \<noteq> [] \<and> update_logs db = Some ls
        \<longrightarrow> shared_state (init_db now db) = Some rows \<and> update_logs (init_db now db) = Some ls"
    by (cases rows)
       (simp_all add: init_db_def Let_def close_def commit_def get_connection_def create_tables_def)
  from 1 2 init_db_empty fold_init_db_initialized show ?thesis by blast
qed

lemmas eval_defs =
  update_state_def get_current_state_def get_logs_def init_db_def
  select_latest_state_def update_latest_state_def insert_update_log_def insert_initial_state_def
  count_logs_def select_logs_page_def limit_offset_def order_by_timestamp_desc_def
  create_tables_def next_rowid_def to_sql_integer_def from_sql_integer_def log_entry_def
  get_connection_def commit_def close_def Let_def

lemma example_update:
  "update_state None 101 102 (Some 9) None example_db =
     (example_db_after, Inr \<lparr>old_counter = 5, new_counter = 9,
        old_message = ''hi'', new_message = ''hi''\<rparr>)"
  by (simp add: eval_defs example_db_def example_db_after_def)

lemma example_current:
  "get_current_state example_db = (example_db, Inr \<lparr>counter = 5, message = ''hi''\<rparr>)"
  by (simp add: eval_defs example_db_def)

theorem update_state_coalesce_witness:
  "update_state None 101 102 (Some 9) None example_db =
     (example_db_after, Inr \<lparr>old_counter = 5, new_counter = 9,
        old_message = ''hi'', new_message = ''hi''\<rparr>)
   \<and> snd (get_current_state example_db_after) = Inr \<lparr>counter = 9, message = ''hi''\<rparr>
   \<and> (\<exists>row. update_logs example_db_after = Some [row]
         \<and> le_old_counter (log_entry row) = 5 \<and> le_new_counter (log_entry row) = 9
         \<and> le_new_message (log_entry row) = le_old_message (log_entry row)
         \<and> le_update_type (log_entry row) = ''counter'')"
proof -
  have st: "shared_state example_db =
      Some [\<lparr>sr_id = 1, sr_counter = 5, sr_message = ''hi'', sr_updated_at = 100\<rparr>]"
    by (simp add: example_db_def)
  have lg: "update_logs example_db = Some []"
    by (simp add: example_db_def)
  from update_state_coalesce [OF example_update st _ example_current] lg example_update
  show ?thesis by auto
qed

theorem update_state_atomic_witness:
  "update_state (Some BeforeInsert) 101 102 (Some 9) None example_db =
     (example_db, Inl SimulatedFailure)
   \<and> (\<exists>w1. update_latest_state 101 9 ''hi'' example_db = Inr w1 \<and>
            insert_update_log 102 5 9 ''hi'' ''hi'' ''counter'' w1 = Inr example_db_after)"
proof -
  have f: "update_state (Some BeforeInsert) 101 102 (Some 9) None example_db =
     (example_db, Inl SimulatedFailure)"
    by (simp add: eval_defs example_db_def)
  from update_state_atomic [of "Some BeforeInsert" 101 102 "Some 9" None example_db] f
  have 1: "update_state (Some BeforeInsert) 101 102 (Some 9) None example_db =
     (example_db, Inl SimulatedFailure)"
    by simp
  from update_state_atomic [of None 101 102 "Some 9" None example_db]
  have "\<forall>db' res. update_state None 101 102 (Some 9) None example_db = (db', Inr res) \<longrightarrow>
        (\<exists>w1. update_latest_state 101 (new_counter res) (new_message res) example_db = Inr w1 \<and>
              insert_update_log 102 (old_counter res) (new_counter res) (old_message res)
                (new_message res) (join '', '' ((if Some (9::int) \<noteq> None then [''counter''] else []) @
                   (if (None :: string option) \<noteq> None then [''message''] else []))) w1 = Inr db')"
    by blast
  from this [rule_format, OF example_update]
  have 2: "\<exists>w1. update_latest_state 101 9 ''hi'' example_db = Inr w1 \<and>
            insert_update_log 102 5 9 ''hi'' ''hi'' ''counter'' w1 = Inr example_db_after"
    by simp
  from 1 2 show ?thesis by simp
qed

lemma example_calls_run: "update_all example_calls example_db = Inr example_calls_after"
  by (simp add: example_calls_def eval_defs example_db_def example_calls_after_def)

theorem log_monotone_witness:
  "update_all example_calls example_db = Inr example_calls_after
   \<and> (\<exists>new. update_logs example_calls_after = Some ([] @ new) \<and> length new = 2)
   \<and> count_logs example_calls_after = Inr 2
   \<and> update_logs (init_db 7 example_db) = Some []"
proof -
  have lg: "update_logs example_db = Some []"
    by (simp add: example_db_def)
  from log_monotone [OF lg, of example_calls None 0 0 None None 7 1 1]
  have "\<forall>db'. update_all example_calls example_db = Inr db' \<longrightarrow>
            (\<exists>new. update_logs db' = Some ([] @ new) \<and> length new = length example_calls
               \<and> count_logs db' = Inr (int (length ([] :: log_row list)) + int (length example_calls)))"
    and 2: "update_logs (init_db 7 example_db) = Some []"
    by blast+
  from this(1) [rule_format, OF example_calls_run] 2 example_calls_run
  show ?thesis by (auto simp: example_calls_def)
qed

theorem get_logs_newest_first_witness:
  "(\<exists>pg. get_logs 1 10 example_logs_db = (example_logs_db, Inr pg)
         \<and> map le_timestamp (logs pg) = [30, 20, 10]
         \<and> le_timestamp (logs pg ! 1) < le_timestamp (logs pg ! 0))
   \<and> (0::nat) < 1"
proof -
  define pg where "pg = (case snd (get_logs 1 10 example_logs_db) of Inr r \<Rightarrow> r)"
  have ok: "get_logs 1 10 example_logs_db = (example_logs_db, Inr pg)"
    unfolding pg_def by (simp add: eval_defs example_logs_db_def)
  have ts: "map le_timestamp (logs pg) = [30, 20, 10]"
    unfolding pg_def by (simp add: eval_defs example_logs_db_def)
  then have len: "1 < length (logs pg)" "0 < length (logs pg)"
    and lt: "le_timestamp (logs pg ! 1) < le_timestamp (logs pg ! 0)"
    by (auto simp: map_eq_Cons_conv)
  from get_logs_newest_first [OF ok len lt] ok ts lt show ?thesis by auto
qed

theorem get_current_state_latest_witness:
  "get_current_state example_db = (example_db, Inr \<lparr>counter = 5, message = ''hi''\<rparr>)
   \<and> get_current_state (create_tables empty_database) =
       (create_tables empty_database, Inr \<lparr>counter = 0, message = ''''\<rparr>)"
proof -
  have st: "shared_state example_db =
      Some [\<lparr>sr_id = 1, sr_counter = 5, sr_message = ''hi'', sr_updated_at = 100\<rparr>]"
    by (simp add: example_db_def)
  have st0: "shared_state (create_tables empty_database) = Some []"
    by (simp add: create_tables_def empty_database_def)
  from get_current_state_latest [OF st] get_current_state_latest [OF st0]
  show ?thesis by (auto simp: from_sql_integer_def)
qed

theorem reads_leave_store_unchanged_witness:
  "fst (get_current_state example_logs_db) = example_logs_db
   \<and> fst (get_logs 2 2 example_logs_db) = example_logs_db"
  using reads_leave_store_unchanged [of example_logs_db 2 2] by simp

theorem init_db_idempotent_witness:
  "fold init_db [8, 9] (init_db 7 empty_database) = init_db 7 empty_database
   \<and> fold init_db [8, 9] example_logs_db = example_logs_db
   \<and> shared_state (fold init_db [8, 9] (init_db 7 empty_database)) =
       Some [\<lparr>sr_id = 1, sr_counter = 0, sr_message = '''', sr_updated_at = 7\<rparr>]"
proof -
  note t = init_db_idempotent [of 7 "[8, 9]" example_logs_db
      "[\<lparr>sr_id = 1, sr_counter = 3, sr_message = ''c'', sr_updated_at = 30\<rparr>]"
      "the (update_logs example_logs_db)"]
  have pre: "journal_mode example_logs_db = WAL \<and>
     shared_state example_logs_db =
       Some [\<lparr>sr_id = 1, sr_counter = 3, sr_message = ''c'', sr_updated_at = 30\<rparr>] \<and>
     [\<lparr>sr_id = 1, sr_counter = 3, sr_message = ''c'', sr_updated_at = 30\<rparr>] \<noteq> [] \<and>
     update_logs example_logs_db = Some (the (update_logs example_logs_db))"
    by (simp add: example_logs_db_def)
  from t pre have 1: "fold init_db [8, 9] (init_db 7 empty_database) = init_db 7 empty_database"
    and 2: "fold init_db [8, 9] example_logs_db = example_logs_db"
    and 3: "init_db 7 empty_database =
     \<lparr>journal_mode = WAL,
      shared_state = Some [\<lparr>sr_id = 1, sr_counter = 0, sr_message = '''', sr_updated_at = 7\<rparr>],
      update_logs = Some [], seq_shared_state = 1, seq_update_logs = 0\<rparr>"
    by blast+
  have 4: "shared_state (fold init_db [8, 9] (init_db 7 empty_database)) =
       Some [\<lparr>sr_id = 1, sr_counter = 0, sr_message = '''', sr_updated_at = 7\<rparr>]"
    unfolding 1 by (simp add: 3)
  from 1 2 4 show ?thesis by (intro conjI)
qed

theorem update_state_both_absent_witness:
  "\<exists>db' res row. update_state None 101 102 None None example_db = (db', Inr res)
     \<and> snd (get_current_state db') = Inr \<lparr>counter = 5, message = ''hi''\<rparr>
     \<and> res = \<lparr>old_counter = 5, new_counter = 5, old_message = ''hi'', new_message = ''hi''\<rparr>
     \<and> update_logs db' = Some [row] \<and> le_update_type (log_entry row) = ''''"
proof -
  have st: "shared_state example_db =
      Some [\<lparr>sr_id = 1, sr_counter = 5, sr_message = ''hi'', sr_updated_at = 100\<rparr>]"
    and lg: "update_logs example_db = Some []"
    by (simp_all add: example_db_def)
  from update_state_both_absent [OF st lg, of 101 102] obtain db' res row where
    ok: "update_state None 101 102 None None example_db = (db', Inr res)"
    and s: "snd (get_current_state db') = snd (get_current_state example_db)"
    and l: "update_logs db' = Some ([] @ [row])" "le_update_type (log_entry row) = ''''"
    by blast
  have "update_state None 101 102 None None example_db =
     (fst (update_state None 101 102 None None example_db),
      Inr \<lparr>old_counter = 5, new_counter = 5, old_message = ''hi'', new_message = ''hi''\<rparr>)"
    by (simp add: eval_defs example_db_def)
  with ok have "res = \<lparr>old_counter = 5, new_counter = 5, old_message = ''hi'', new_message = ''hi''\<rparr>"
    by simp
  with ok s l example_current show ?thesis by simp
qed

lemma get_logs_offset_overflow:
  assumes ls: "update_logs db = Some ls"
    and l: "1 \<le> l" "l \<le> 100"
    and off: "2 ^ 63 \<le> (p - 1) * l"
  shows "get_logs p l db = (db, Inl OverflowError)"
proof -
  have 1: "to_sql_integer ((p - 1) * l) = Inl OverflowError"
    using off by (simp add: to_sql_integer_def)
  have 2: "to_sql_integer l = Inr (word_of_int l)"
    using l by (simp add: to_sql_integer_def)
  show ?thesis
    using ls l 1 2
    by (simp add: get_logs_def Let_def count_logs_def select_logs_page_def get_connection_def
        close_def)
qed

lemma example_logs_db_logs: "\<exists>ls. update_logs example_logs_db = Some ls \<and> length ls = 3"
  by (simp add: example_logs_db_def)

text \<open>
  Claim C4. The page arithmetic of \<^verbatim>\<open>get_logs\<close> is as claimed whenever the offset
  \<open>(page - 1) * limit\<close> fits a 64-bit integer (lemma \<open>get_logs_in_range\<close>). Here
  \<open>page = 2 ^ 63\<close> and \<open>limit = 2\<close> satisfy \<open>page \<ge> 1\<close> and \<open>1 \<le> limit \<le> 100\<close>, and the call
  reports neither a total nor a number of pages: binding the offset raises
  \<^verbatim>\<open>OverflowError\<close>.
\<close>
theorem get_logs_page_overflow:
  "(1::int) \<le> 2 ^ 63 \<and> (1::int) \<le> 2 \<and> (2::int) \<le> 100
   \<and> get_logs (2 ^ 63) 2 example_logs_db = (example_logs_db, Inl OverflowError)"
proof -
  from example_logs_db_logs obtain ls where "update_logs example_logs_db = Some ls" by blast
  from get_logs_offset_overflow [OF this, of 2 "2 ^ 63"] show ?thesis by simp
qed

text \<open>
  Claim C5. A page beyond the last one gives an empty page with the right totals whenever the
  offset fits a 64-bit integer (lemmas \<open>get_logs_beyond_last_page\<close> and
  \<open>get_logs_fifteen\<close>). Here the store has three log rows, \<open>page = 2 ^ 63 + 1\<close> and
  \<open>limit = 1\<close>: the page lies beyond the last one, and the call ends in
  \<^verbatim>\<open>OverflowError\<close> instead of an empty page.
\<close>
theorem get_logs_beyond_last_page_overflow:
  "(1::int) \<le> 2 ^ 63 + 1 \<and> (1::int) \<le> 1 \<and> (1::int) \<le> 100
   \<and> (\<exists>ls. update_logs example_logs_db = Some ls \<and> int (length ls) \<le> (2 ^ 63 + 1 - 1) * 1)
   \<and> get_logs (2 ^ 63 + 1) 1 example_logs_db = (example_logs_db, Inl OverflowError)"
proof -
  from example_logs_db_logs obtain ls where
    ls: "update_logs example_logs_db = Some ls" and n: "length ls = 3" by blast
  from get_logs_offset_overflow [OF ls, of 1 "2 ^ 63 + 1"]
  have "get_logs (2 ^ 63 + 1) 1 example_logs_db = (example_logs_db, Inl OverflowError)" by simp
  with ls n show ?thesis by simp
qed

end
